theory Spec2Isabelle
  imports Main
begin

section \<open>Python string and list primitives used by the patch scripts\<close>

text \<open>
  A Python \<open>str\<close> is modelled as a \<open>string\<close>; every \<open>char\<close> stands for one code
  point below 256. The scripts only compare, count, strip and concatenate.
\<close>

text \<open>\<open>s.startswith(p)\<close>\<close>

fun str_startswith :: "string \<Rightarrow> string \<Rightarrow> bool" where
  "str_startswith s [] = True"
| "str_startswith [] (p # ps) = False"
| "str_startswith (c # cs) (p # ps) = (c = p \<and> str_startswith cs ps)"

text \<open>\<open>sub in s\<close>: \<open>sub\<close> occurs as a contiguous substring of \<open>s\<close>.\<close>

fun str_in :: "string \<Rightarrow> string \<Rightarrow> bool" where
  "str_in sub [] = (sub = [])"
| "str_in sub (c # cs) = (str_startswith (c # cs) sub \<or> str_in sub cs)"

text \<open>\<open>s.count(ch)\<close> for a one-character argument.\<close>

definition str_count :: "string \<Rightarrow> char \<Rightarrow> nat" where
  "str_count s ch = length (filter (\<lambda>c. c = ch) s)"

text \<open>\<open>s.endswith(suf)\<close>\<close>

definition str_endswith :: "string \<Rightarrow> string \<Rightarrow> bool" where
  "str_endswith s suf = str_startswith (rev s) (rev suf)"

text \<open>
  \<open>c.isspace()\<close> on the code points below 256: tab, line feed, vertical tab, form feed,
  carriage return, the four separators \<open>0x1C\<close> to \<open>0x1F\<close>, space, \<open>0x85\<close> and \<open>0xA0\<close>.
\<close>

definition isspace :: "char \<Rightarrow> bool" where
  "isspace c = (c \<in> set [CHR 0x09, CHR 0x0A, CHR 0x0B, CHR 0x0C, CHR 0x0D,
                          CHR 0x1C, CHR 0x1D, CHR 0x1E, CHR 0x1F, CHR 0x20,
                          CHR 0x85, CHR 0xA0])"

text \<open>\<open>s.rstrip()\<close>: drop the trailing whitespace.\<close>

definition str_rstrip :: "string \<Rightarrow> string" where
  "str_rstrip s = rev (dropWhile isspace (rev s))"

text \<open>
  The search loops \<open>for i, line in enumerate(lines): if ... in line: x = i; break\<close>:
  the index of the first line that contains \<open>pat\<close>, \<open>None\<close> when the loop falls through.
\<close>

fun find_line :: "string \<Rightarrow> string list \<Rightarrow> nat option" where
  "find_line pat [] = None"
| "find_line pat (l # ls) =
     (if str_in pat l then Some 0 else map_option Suc (find_line pat ls))"

text \<open>
  Python truth value of a search result: \<open>None\<close> and the index \<open>0\<close> are both false, so
  \<open>if templates_start:\<close> and \<open>if export_line ...\<close> take a match on the first line of the
  file for no match.
\<close>

fun truthy :: "nat option \<Rightarrow> bool" where
  "truthy None = False"
| "truthy (Some i) = (i \<noteq> 0)"


section \<open>\<open>fix-templates.py\<close>\<close>

datatype py_error = IndexError

text \<open>What one run of a script does to the outside: the lines it writes back to the file
  (\<open>None\<close> when the file is never opened for writing) and what it prints.\<close>

record outcome =
  written :: "string list option"
  printed :: "string list"

text \<open>The loop variables of the extraction loop (lines 37 to 53).\<close>

record scan_state =
  in_templates :: bool
  brace_count :: int
  lines_to_keep :: "string list"

text \<open>
  One iteration of the loop body on \<open>line\<close>. The second component says whether the
  iteration ended in \<open>break\<close>.
\<close>

definition scan_step :: "string \<Rightarrow> scan_state \<Rightarrow> scan_state \<times> bool" where
  "scan_step line s =
     (if str_in ''templates: {'' line then
        (s\<lparr>in_templates := True, brace_count := 1\<rparr>, False)
      else if in_templates s then
        (let c1 = (if str_in ''{'' line
                   then brace_count s + int (str_count line CHR ''{'')
                   else brace_count s);
             c2 = (if str_in ''}'' line
                   then c1 - int (str_count line CHR ''}'')
                   else c1)
         in if c2 = 0
            then (s\<lparr>brace_count := c2, lines_to_keep := lines_to_keep s @ [line]\<rparr>, True)
            else (s\<lparr>brace_count := c2, lines_to_keep := lines_to_keep s @ [line]\<rparr>, False))
      else (s, False))"

text \<open>\<open>for i in range(templates_start, len(lines))\<close> over the lines from the anchor on.\<close>

fun scan_loop :: "string list \<Rightarrow> scan_state \<Rightarrow> scan_state" where
  "scan_loop [] s = s"
| "scan_loop (line # rest) s =
     (let (s', stop) = scan_step line s
      in if stop then s' else scan_loop rest s')"

text \<open>Lines 56 and 57 on the last kept line.\<close>

definition close_line :: "string \<Rightarrow> string" where
  "close_line l = (if \<not> str_endswith l '';\<newline>'' then str_rstrip l @ '';\<newline>'' else l)"

text \<open>\<open>lines_to_keep[-1]\<close> is read and assigned; on an empty list Python raises.\<close>

definition close_last :: "string list \<Rightarrow> py_error + string list" where
  "close_last ks = (if ks = [] then Inl IndexError
                    else Inr (butlast ks @ [close_line (last ks)]))"

text \<open>The tail loops \<open>for line in lines[export_line+1:]: if pred: keep.append(line)\<close>.\<close>

fun tail_loop :: "(string \<Rightarrow> bool) \<Rightarrow> string list \<Rightarrow> string list \<Rightarrow> string list" where
  "tail_loop pred [] keep = keep"
| "tail_loop pred (line # rest) keep =
     tail_loop pred rest (if pred line then keep @ [line] else keep)"

definition templates_tail_pred :: "string \<Rightarrow> bool" where
  "templates_tail_pred line = (str_in ''delete'' line \<or> str_in ''//'' line)"

definition templates_header :: "string list" where
  "templates_header =
     [''\<newline>'',
      ''// Export templates for use in other modules\<newline>'',
      ''export const nubiTemplates = {\<newline>'']"

text \<open>The whole script on the lines read from the file. A raised exception ends the run
  before the file is opened for writing.\<close>

definition fix_templates :: "string list \<Rightarrow> py_error + outcome" where
  "fix_templates lines =
     (let templates_start = find_line ''  templates: {'' lines in
      if truthy templates_start then
        (let export_line = find_line ''export default nubiCharacter;'' lines in
         if truthy export_line \<and> the templates_start > the export_line then
           (let keep0 = take (the export_line + 1) lines @ templates_header;
                s = scan_loop (drop (the templates_start) lines)
                      \<lparr>in_templates = False, brace_count = 0, lines_to_keep = keep0\<rparr>
            in case close_last (lines_to_keep s) of
                 Inl e \<Rightarrow> Inl e
               | Inr keep1 \<Rightarrow>
                   Inr \<lparr>written = Some (tail_loop templates_tail_pred
                                          (drop (the export_line + 1) lines) keep1),
                        printed = [''Fixed templates structure'']\<rparr>)
         else Inr \<lparr>written = None, printed = [''Export/templates order seems OK'']\<rparr>)
      else Inr \<lparr>written = None, printed = [''Could not find templates definition'']\<rparr>)"

text \<open>The lines of the file after the run.\<close>

definition file_after :: "string list \<Rightarrow> py_error + outcome \<Rightarrow> string list" where
  "file_after lines r =
     (case r of Inl e \<Rightarrow> lines
      | Inr oc \<Rightarrow> (case written oc of None \<Rightarrow> lines | Some ls \<Rightarrow> ls))"


text \<open>The lines the extraction loop appends when it starts at \<open>ls\<close> with nothing kept.\<close>

definition extracted :: "string list \<Rightarrow> string list" where
  "extracted ls =
     lines_to_keep (scan_loop ls \<lparr>in_templates = False, brace_count = 0, lines_to_keep = []\<rparr>)"

text \<open>What lines 46 to 49 add to \<open>brace_count\<close> for one line.\<close>

definition line_delta :: "string \<Rightarrow> int" where
  "line_delta l = int (str_count l CHR ''{'') - int (str_count l CHR ''}'')"

text \<open>
  The value of \<open>brace_count\<close> after the loop body has run on each line of \<open>ls\<close> in turn,
  from the value \<open>b\<close> and inside the block: a line that contains \<open>templates: {\<close> sets it
  to 1 (lines 41 to 44), any other line adds its \<open>line_delta\<close> (lines 46 to 49).
\<close>

fun run_count :: "int \<Rightarrow> string list \<Rightarrow> int" where
  "run_count b [] = b"
| "run_count b (l # ls) =
     run_count (if str_in ''templates: {'' l then 1 else b + line_delta l) ls"


section \<open>\<open>fix-nubi-final.py\<close>\<close>

text \<open>\<open>xs.insert(i, x)\<close> for \<open>i \<ge> 0\<close>: an index beyond the end appends.\<close>

definition list_insert :: "nat \<Rightarrow> 'a \<Rightarrow> 'a list \<Rightarrow> 'a list" where
  "list_insert i x xs = take i xs @ [x] @ drop i xs"

definition import_line :: string where
  \<open>import_line = ''import { nubiTemplates } from "./nubi-templates";\<newline>''\<close>

definition final_tail_pred :: "string \<Rightarrow> bool" where
  "final_tail_pred line = (str_in ''delete'' line \<and> str_in ''nubiCharacter'' line)"

definition fix_nubi_final :: "string list \<Rightarrow> outcome" where
  \<open>fix_nubi_final lines =
     (let export_line = find_line ''export default nubiCharacter;'' lines in
      if truthy export_line then
        (let clean0 = take (the export_line + 1) lines;
             clean1 = clean0 @ [''\<newline>''];
             clean2 = list_insert 1 import_line clean1;
             clean3 = clean2 @ [''// Export templates for use in other modules\<newline>''];
             clean4 = clean3 @ [''export { nubiTemplates } from "./nubi-templates";\<newline>''];
             clean5 = clean4 @ [''\<newline>''];
             clean_lines = tail_loop final_tail_pred (drop (the export_line + 1) lines) clean5
         in \<lparr>written = Some clean_lines, printed = [''Cleaned up nubi-character.ts'']\<rparr>)
      else \<lparr>written = None, printed = []\<rparr>)\<close>


section \<open>Whole-buffer substitutions: \<open>fix-raid-system.py\<close> and \<open>comprehensive-fix.py\<close>\<close>

text \<open>
  \<open>s.replace(old, new)\<close>: every occurrence of \<open>old\<close>, found left to right without
  overlap, becomes \<open>new\<close>. With an empty \<open>old\<close> Python puts \<open>new\<close> before every character
  and at the end.
\<close>

fun replace_from :: "string \<Rightarrow> string \<Rightarrow> string \<Rightarrow> string" where
  "replace_from old new [] = []"
| "replace_from old new (c # cs) =
     (if old \<noteq> [] \<and> str_startswith (c # cs) old
      then new @ replace_from old new (drop (length old - 1) cs)
      else c # replace_from old new cs)"

definition str_replace :: "string \<Rightarrow> string \<Rightarrow> string \<Rightarrow> string" where
  "str_replace s old new =
     (if old = [] then new @ concat (map (\<lambda>c. c # new) s) else replace_from old new s)"

text \<open>A run of statements \<open>content = content.replace(old, new)\<close>, in order.\<close>

fun replace_all :: "(string \<times> string) list \<Rightarrow> string \<Rightarrow> string" where
  "replace_all [] content = content"
| "replace_all ((old, new) # ops) content = replace_all ops (str_replace content old new)"

text \<open>\<open>fix-raid-system.py\<close>, lines 5 to 18: the two insertions of \<open>view\<close>.\<close>

definition raid_view_ops :: "(string \<times> string) list" where
  "raid_view_ops =
     [(''quote: number;'', ''quote: number;\<newline>        view: number;''),
      (''            quote: 3,\<newline>        },'',
       ''            quote: 3,\<newline>            view: 1,\<newline>        },'')]"

definition fix_raid_system_views :: "string \<Rightarrow> string" where
  "fix_raid_system_views content =
     (let content1 = str_replace content ''quote: number;''
                       ''quote: number;\<newline>        view: number;'';
          content2 = str_replace content1 ''            quote: 3,\<newline>        },''
                       ''            quote: 3,\<newline>            view: 1,\<newline>        },''
      in content2)"

text \<open>
  \<open>comprehensive-fix.py\<close>, lines 5 to 40, on the content read from the file: the content
  written back and what is printed. The call of \<open>re.sub\<close> on lines 33 to 37 belongs to
  Python's \<open>re\<close> library and is the parameter \<open>re_sub\<close>.
\<close>

definition comprehensive_fix_raid_system :: "(string \<Rightarrow> string) \<Rightarrow> string \<Rightarrow> string \<times> string list" where
  \<open>comprehensive_fix_raid_system re_sub content =
     (let content1 = str_replace content
                       ''            share: 1,\<newline>            quote: 3,\<newline>        },''
                       ''            share: 1,\<newline>            quote: 3,\<newline>            view: 1,\<newline>        },'';
          content2 = str_replace content1 ''if (text.toLowerCase()'' ''if (text && text.toLowerCase()'';
          content3 = str_replace content2 ''.user?.id || ""'' ''.userId || ""'';
          content4 = str_replace content3 ''"userId":'' ''"user":'';
          content5 = re_sub content4
      in (content5, [''Fixing nubi-raid-system.ts...'']))\<close>


section \<open>Line-indexed replacements: \<open>comprehensive-fix.py\<close>, lines 138 to 155\<close>

text \<open>
  \<open>if len(lines) > n: lines[n - 1] = txt\<close>: the three assignments of the script have this
  shape, with \<open>n\<close> the 1-based number of the line and \<open>n = 34\<close>, \<open>37\<close> and \<open>107\<close>.
\<close>

definition replace_line_guarded :: "nat \<Rightarrow> string \<Rightarrow> string list \<Rightarrow> string list" where
  "replace_line_guarded n txt lines = (if length lines > n then lines[n - 1 := txt] else lines)"

definition debug_executing_line :: string where
  \<open>debug_executing_line =
     ''      logger.debug(`[${serviceName}] Executing ${methodName} - ${JSON.stringify({ correlationId, context })}`);\<newline>''\<close>

definition debug_completed_line :: string where
  \<open>debug_completed_line =
     ''      logger.debug(`[${serviceName}] ${methodName} completed in ${duration}ms - ${JSON.stringify({ correlationId })}`);\<newline>''\<close>

definition error_json_line :: string where
  \<open>error_json_line =
     ''    logger.error(JSON.stringify({ error: serviceError.message, stack: serviceError.error?.stack, context, correlationId }));\<newline>''\<close>

definition fix_error_handler :: "string list \<Rightarrow> outcome" where
  "fix_error_handler lines =
     (let lines1 = (if length lines > 34 then lines[33 := debug_executing_line] else lines);
          lines2 = (if length lines1 > 37 then lines1[36 := debug_completed_line] else lines1);
          lines3 = (if length lines2 > 107 then lines2[106 := error_json_line] else lines2)
      in \<lparr>written = Some lines3,
          printed = [''Fixing error-handler.ts...'', ''All fixes applied!'']\<rparr>)"


section \<open>The operations as the specification words them\<close>

text \<open>
  The scan of the specification: after the anchor line the depth changes at every
  delimiter, left to right, and the block ends at the close delimiter that brings the
  depth to 0. The result is the text before that delimiter, \<open>None\<close> when the depth
  never comes back to 0.
\<close>

fun spec_char_scan :: "int \<Rightarrow> string \<Rightarrow> string option" where
  "spec_char_scan depth [] = None"
| "spec_char_scan depth (c # cs) =
     (if c = CHR ''{'' then map_option ((#) c) (spec_char_scan (depth + 1) cs)
      else if c = CHR ''}'' then
        (if depth - 1 = 0 then Some [] else map_option ((#) c) (spec_char_scan (depth - 1) cs))
      else map_option ((#) c) (spec_char_scan depth cs))"

datatype spec_error = IndexOutOfRange | StructuralMismatch

text \<open>\<open>ReplaceLine\<close> of the specification, with a 1-based index.\<close>

definition spec_ReplaceLine :: "nat \<Rightarrow> string \<Rightarrow> string list \<Rightarrow> spec_error + string list" where
  "spec_ReplaceLine idx txt buf =
     (if length buf < idx then Inl IndexOutOfRange else Inr (buf[idx - 1 := txt]))"


section \<open>Facts about the primitives and the loops\<close>

lemma str_in_single: "str_in [c] l \<longleftrightarrow> c \<in> set l"
  by (induction l) auto

lemma str_count_zero: "c \<notin> set l \<Longrightarrow> str_count l c = 0"
  by (induction l) (auto simp: str_count_def)

lemma scan_step_anchor:
  "str_in ''templates: {'' line \<Longrightarrow>
   scan_step line s = (s\<lparr>in_templates := True, brace_count := 1\<rparr>, False)"
  by (simp add: scan_step_def)

lemma scan_step_inside:
  "\<not> str_in ''templates: {'' line \<Longrightarrow> in_templates s \<Longrightarrow>
   scan_step line s =
     (s\<lparr>brace_count := brace_count s + line_delta line,
        lines_to_keep := lines_to_keep s @ [line]\<rparr>,
      brace_count s + line_delta line = 0)"
  by (simp add: scan_step_def line_delta_def str_in_single str_count_zero Let_def)

lemma scan_step_outside:
  "\<not> str_in ''templates: {'' line \<Longrightarrow> \<not> in_templates s \<Longrightarrow> scan_step line s = (s, False)"
  by (simp add: scan_step_def)

lemma tail_loop_filter: "tail_loop pred rest keep = keep @ filter pred rest"
  by (induction rest arbitrary: keep) auto

lemma scan_loop_open_aux:
  "brace_count (scan_loop ls \<lparr>in_templates = True, brace_count = b, lines_to_keep = k\<rparr>) \<noteq> 0 \<Longrightarrow>
   lines_to_keep (scan_loop ls \<lparr>in_templates = True, brace_count = b, lines_to_keep = k\<rparr>) =
     k @ filter (\<lambda>l. \<not> str_in ''templates: {'' l) ls"
proof (induction ls arbitrary: b k)
  case Nil
  then show ?case by simp
next
  case (Cons line rest)
  show ?case
  proof (cases "str_in ''templates: {'' line")
    case True
    with Cons.prems Cons.IH [of 1 k]
    show ?thesis by (simp add: scan_step_anchor)
  next
    case False
    with Cons.prems Cons.IH [of "b + line_delta line" "k @ [line]"]
    show ?thesis by (simp add: scan_step_inside split: if_splits)
  qed
qed

lemma scan_loop_keep:
  "lines_to_keep (scan_loop ls \<lparr>in_templates = i, brace_count = b, lines_to_keep = k\<rparr>) =
     k @ lines_to_keep (scan_loop ls \<lparr>in_templates = i, brace_count = b, lines_to_keep = []\<rparr>)"
proof (induction ls arbitrary: i b k)
  case Nil
  then show ?case by simp
next
  case (Cons line rest)
  show ?case
  proof (cases "str_in ''templates: {'' line")
    case True
    with Cons.IH [of True 1 k]
    show ?thesis by (simp add: scan_step_anchor)
  next
    case False
    show ?thesis
    proof (cases i)
      case True
      with False Cons.IH [of True "b + line_delta line" "k @ [line]"]
       Cons.IH [of True "b + line_delta line" "[line]"]
      show ?thesis by (simp add: scan_step_inside)
    next
      case f: False
      with False Cons.IH [of False b k] show ?thesis by (simp add: scan_step_outside)
    qed
  qed
qed

lemma scan_loop_closed:
  "\<forall>j<length pre. run_count b (take (Suc j) pre) \<noteq> 0 \<Longrightarrow>
   run_count b (pre @ [l0]) = 0 \<Longrightarrow>
   scan_loop (pre @ l0 # post) \<lparr>in_templates = True, brace_count = b, lines_to_keep = keep\<rparr>
     = \<lparr>in_templates = True, brace_count = 0,
        lines_to_keep = keep @ filter (\<lambda>l. \<not> str_in ''templates: {'' l) pre @ [l0]\<rparr>"
proof (induction pre arbitrary: b keep)
  case Nil
  then have "\<not> str_in ''templates: {'' l0 \<and> b + line_delta l0 = 0"
    by (simp split: if_splits)
  then show ?case by (simp add: scan_step_inside)
next
  case (Cons p pre)
  let ?b' = "if str_in ''templates: {'' p then 1 else b + line_delta p"
  have nz: "?b' \<noteq> 0" using Cons.prems(1) [rule_format, of 0] by simp
  have rest: "\<forall>j<length pre. run_count ?b' (take (Suc j) pre) \<noteq> 0"
  proof (intro allI impI)
    fix j assume "j < length pre"
    then have "Suc j < length (p # pre)" by simp
    from Cons.prems(1) [rule_format, OF this]
    show "run_count ?b' (take (Suc j) pre) \<noteq> 0" by simp
  qed
  have fin: "run_count ?b' (pre @ [l0]) = 0" using Cons.prems(2) by simp
  show ?case
  proof (cases "str_in ''templates: {'' p")
    case True
    with Cons.IH [of 1 keep] rest fin show ?thesis by (simp add: scan_step_anchor)
  next
    case False
    with Cons.IH [of "b + line_delta p" "keep @ [p]"] rest fin nz show ?thesis
      by (simp add: scan_step_inside)
  qed
qed


lemma str_startswith_iff: "str_startswith s p \<longleftrightarrow> (\<exists>post. s = p @ post)"
  by (induction s p rule: str_startswith.induct) auto

lemma str_in_iff: "str_in sub s \<longleftrightarrow> (\<exists>pre post. s = pre @ sub @ post)"
proof (induction s)
  case Nil
  then show ?case by auto
next
  case (Cons c cs)
  show ?case
  proof
    assume "str_in sub (c # cs)"
    then consider "str_startswith (c # cs) sub" | "str_in sub cs" by auto
    then show "\<exists>pre post. c # cs = pre @ sub @ post"
    proof cases
      case 1
      then obtain post where "c # cs = sub @ post" by (auto simp: str_startswith_iff)
      then have "c # cs = [] @ sub @ post" by simp
      then show ?thesis by blast
    next
      case 2
      then obtain pre post where "cs = pre @ sub @ post" using Cons.IH by auto
      then have "c # cs = (c # pre) @ sub @ post" by simp
      then show ?thesis by blast
    qed
  next
    assume "\<exists>pre post. c # cs = pre @ sub @ post"
    then obtain pre post where eq: "c # cs = pre @ sub @ post" by auto
    show "str_in sub (c # cs)"
    proof (cases pre)
      case Nil
      with eq have "str_startswith (c # cs) sub" by (auto simp: str_startswith_iff)
      then show ?thesis by simp
    next
      case (Cons a pre')
      with eq have "cs = pre' @ sub @ post" by simp
      then have "str_in sub cs" using Cons.IH by auto
      then show ?thesis by simp
    qed
  qed
qed

lemma str_in_suffix_pat: "str_in (a @ b) l \<Longrightarrow> str_in b l"
proof -
  assume "str_in (a @ b) l"
  then obtain pre post where "l = pre @ (a @ b) @ post" by (auto simp: str_in_iff)
  then have "l = (pre @ a) @ b @ post" by simp
  then show ?thesis unfolding str_in_iff by blast
qed

lemma find_line_Some:
  "find_line pat ls = Some i \<Longrightarrow> i < length ls \<and> str_in pat (ls ! i) \<and> (\<forall>j<i. \<not> str_in pat (ls ! j))"
proof (induction ls arbitrary: i)
  case Nil
  then show ?case by simp
next
  case (Cons l ls)
  show ?case
  proof (cases "str_in pat l")
    case True
    with Cons.prems show ?thesis by simp
  next
    case False
    with Cons.prems obtain i' where i': "find_line pat ls = Some i'" "i = Suc i'" by auto
    from Cons.IH [OF i'(1)] False i'(2) show ?thesis
      by (auto simp: nth_Cons split: nat.splits)
  qed
qed

lemma find_line_None: "find_line pat ls = None \<Longrightarrow> \<forall>l\<in>set ls. \<not> str_in pat l"
  by (induction ls) (auto split: if_splits)

lemma fix_templates_written:
  assumes "find_line ''  templates: {'' lines = Some ts"
    and "find_line ''export default nubiCharacter;'' lines = Some e"
    and "0 < e" and "e < ts"
  shows "fix_templates lines =
     Inr \<lparr>written = Some (butlast (take (e + 1) lines @ templates_header @ extracted (drop ts lines))
                          @ [close_line (last (take (e + 1) lines @ templates_header @ extracted (drop ts lines)))]
                          @ filter templates_tail_pred (drop (e + 1) lines)),
          printed = [''Fixed templates structure'']\<rparr>"
proof -
  have ne: "templates_header \<noteq> []" by (simp add: templates_header_def)
  have k: "lines_to_keep (scan_loop (drop ts lines)
              \<lparr>in_templates = False, brace_count = 0,
                 lines_to_keep = take (Suc e) lines @ templates_header\<rparr>)
           = (take (Suc e) lines @ templates_header) @ extracted (drop ts lines)"
    unfolding extracted_def by (rule scan_loop_keep)
  from assms ne show ?thesis
    unfolding fix_templates_def Let_def
    by (simp add: k close_last_def tail_loop_filter del: scan_loop.simps)
qed

lemma anchor_line_first:
  assumes "find_line ''  templates: {'' lines = Some ts"
  shows "drop ts lines = lines ! ts # drop (Suc ts) lines \<and> str_in ''templates: {'' (lines ! ts)"
proof -
  from find_line_Some [OF assms] have lt: "ts < length lines" and a: "str_in ''  templates: {'' (lines ! ts)"
    by auto
  have "str_in (''  '' @ ''templates: {'') (lines ! ts)" using a by simp
  then have "str_in ''templates: {'' (lines ! ts)" by (rule str_in_suffix_pat)
  with lt show ?thesis by (simp add: Cons_nth_drop_Suc)
qed

lemma extracted_unbalanced:
  assumes "find_line ''  templates: {'' lines = Some ts"
    and "brace_count (scan_loop (drop ts lines)
            \<lparr>in_templates = False, brace_count = 0, lines_to_keep = k\<rparr>) \<noteq> 0"
  shows "lines_to_keep (scan_loop (drop ts lines)
            \<lparr>in_templates = False, brace_count = 0, lines_to_keep = k\<rparr>)
         = k @ filter (\<lambda>l. \<not> str_in ''templates: {'' l) (drop (Suc ts) lines)"
proof -
  from anchor_line_first [OF assms(1)]
  have d: "drop ts lines = lines ! ts # drop (Suc ts) lines" and a: "str_in ''templates: {'' (lines ! ts)"
    by auto
  have step: "scan_loop (drop ts lines) \<lparr>in_templates = False, brace_count = 0, lines_to_keep = k\<rparr>
      = scan_loop (drop (Suc ts) lines) \<lparr>in_templates = True, brace_count = 1, lines_to_keep = k\<rparr>"
    by (subst d) (simp add: scan_step_anchor a)
  from assms(2) show ?thesis unfolding step by (rule scan_loop_open_aux)
qed



lemmas py_eval = fix_templates_def scan_step_def close_last_def close_line_def
  str_endswith_def str_rstrip_def isspace_def str_count_def templates_header_def
  templates_tail_pred_def Let_def extracted_def

section \<open>C1: a block whose depth never returns to 0\<close>

text \<open>
  C1 as stated: when the anchor matches and the depth never returns to 0 before the end
  of the buffer, the scan reports NotFound and yields no partial span. The script has no
  such report. On the buffer below \<open>brace_count\<close> is 1 when the loop runs out of lines,
  and the script still writes the file, with the two lines after the anchor as the block.
\<close>

theorem C1_unbalanced_counterexample:
  "brace_count (scan_loop
      (drop 2 [''import x\<newline>'', ''export default nubiCharacter;\<newline>'',
               ''  templates: {\<newline>'', ''    a: {\<newline>'', ''  }\<newline>''])
      \<lparr>in_templates = False, brace_count = 0, lines_to_keep = []\<rparr>) = 1
   \<and> fix_templates [''import x\<newline>'', ''export default nubiCharacter;\<newline>'',
                    ''  templates: {\<newline>'', ''    a: {\<newline>'', ''  }\<newline>'']
     = Inr \<lparr>written = Some [''import x\<newline>'', ''export default nubiCharacter;\<newline>'',
                            ''\<newline>'', ''// Export templates for use in other modules\<newline>'',
                            ''export const nubiTemplates = {\<newline>'',
                            ''    a: {\<newline>'', ''  };\<newline>''],
            printed = [''Fixed templates structure'']\<rparr>"
  by (simp add: py_eval)

text \<open>
  C1, amended: when both guards pass and \<open>brace_count\<close> is not 0 after the extraction
  loop, the block is every line after the anchor line up to the end of the buffer, except
  lines that contain \<open>templates: {\<close> again; the last kept line is closed and the file is
  written.
\<close>

theorem C1_unbalanced_block_runs_to_end:
  assumes "find_line ''  templates: {'' lines = Some ts"
    and "find_line ''export default nubiCharacter;'' lines = Some e"
    and "0 < e" and "e < ts"
    and "brace_count (scan_loop (drop ts lines)
            \<lparr>in_templates = False, brace_count = 0, lines_to_keep = []\<rparr>) \<noteq> 0"
    and "K = take (e + 1) lines @ templates_header
              @ filter (\<lambda>l. \<not> str_in ''templates: {'' l) (drop (Suc ts) lines)"
  shows "fix_templates lines =
     Inr \<lparr>written = Some (butlast K @ [close_line (last K)]
                          @ filter templates_tail_pred (drop (e + 1) lines)),
          printed = [''Fixed templates structure'']\<rparr>"
proof -
  have "extracted (drop ts lines) = filter (\<lambda>l. \<not> str_in ''templates: {'' l) (drop (Suc ts) lines)"
    unfolding extracted_def using extracted_unbalanced [OF assms(1) assms(5)] by simp
  with fix_templates_written [OF assms(1-4)] assms(6) show ?thesis by simp
qed

theorem C1_unbalanced_block_runs_to_end_witness:
  "fix_templates [''import x\<newline>'', ''export default nubiCharacter;\<newline>'',
                  ''  templates: {\<newline>'', ''    a: {\<newline>'', ''  }\<newline>'']
     = Inr \<lparr>written = Some [''import x\<newline>'', ''export default nubiCharacter;\<newline>'',
                            ''\<newline>'', ''// Export templates for use in other modules\<newline>'',
                            ''export const nubiTemplates = {\<newline>'',
                            ''    a: {\<newline>'', ''  };\<newline>''],
            printed = [''Fixed templates structure'']\<rparr>"
  using C1_unbalanced_block_runs_to_end
    [of "[''import x\<newline>'', ''export default nubiCharacter;\<newline>'',
          ''  templates: {\<newline>'', ''    a: {\<newline>'', ''  }\<newline>'']" 2 1, OF _ _ _ _ _ refl]
  by (simp add: scan_step_def close_line_def
  str_endswith_def str_rstrip_def isspace_def str_count_def templates_header_def
  templates_tail_pred_def Let_def)


lemma fix_templates_not_found:
  "\<not> truthy (find_line ''  templates: {'' lines) \<Longrightarrow>
   fix_templates lines = Inr \<lparr>written = None, printed = [''Could not find templates definition'']\<rparr>"
  by (simp add: fix_templates_def)

lemma fix_templates_order_ok:
  "truthy (find_line ''  templates: {'' lines) \<Longrightarrow>
   \<not> (truthy (find_line ''export default nubiCharacter;'' lines)
      \<and> the (find_line ''  templates: {'' lines) > the (find_line ''export default nubiCharacter;'' lines)) \<Longrightarrow>
   fix_templates lines = Inr \<lparr>written = None, printed = [''Export/templates order seems OK'']\<rparr>"
  by (auto simp: fix_templates_def Let_def)

section \<open>C3: when the file is written\<close>

text \<open>
  C3 as stated: on every buffer on which the relocation fails, an unbalanced block
  included, the buffer is left unmodified and nothing is written. On the buffer below
  both guards pass and the depth never returns to 0 after the anchor line (the scan of the
  specification finds no block), and the script rewrites the file, with the three lines
  after the anchor as the block.
\<close>

theorem C3_unbalanced_file_rewritten_counterexample:
  "find_line ''  templates: {''
      [''import x\<newline>'', ''export default nubiCharacter;\<newline>'', ''  templates: {\<newline>'',
       ''  greeting: {\<newline>'', ''    text: 1,\<newline>'', ''  },\<newline>''] = Some 2
   \<and> find_line ''export default nubiCharacter;''
      [''import x\<newline>'', ''export default nubiCharacter;\<newline>'', ''  templates: {\<newline>'',
       ''  greeting: {\<newline>'', ''    text: 1,\<newline>'', ''  },\<newline>''] = Some 1
   \<and> spec_char_scan 1 (concat [''  greeting: {\<newline>'', ''    text: 1,\<newline>'', ''  },\<newline>'']) = None
   \<and> file_after
        [''import x\<newline>'', ''export default nubiCharacter;\<newline>'', ''  templates: {\<newline>'',
         ''  greeting: {\<newline>'', ''    text: 1,\<newline>'', ''  },\<newline>'']
        (fix_templates
          [''import x\<newline>'', ''export default nubiCharacter;\<newline>'', ''  templates: {\<newline>'',
           ''  greeting: {\<newline>'', ''    text: 1,\<newline>'', ''  },\<newline>''])
     = [''import x\<newline>'', ''export default nubiCharacter;\<newline>'', ''\<newline>'',
        ''// Export templates for use in other modules\<newline>'',
        ''export const nubiTemplates = {\<newline>'',
        ''  greeting: {\<newline>'', ''    text: 1,\<newline>'', ''  },;\<newline>'']"
  by (simp add: py_eval file_after_def)

text \<open>
  C3, amended: a relocation fails for the scripts when a guard is false. In
  \<open>fix-templates.py\<close> that is: the anchor index or the export index is \<open>None\<close> or 0, or the
  anchor is not after the export; in \<open>fix-nubi-final.py\<close>: the export index is \<open>None\<close> or
  0. On every such buffer the file is never opened for writing and its lines after the run
  are its lines before. When both guards of \<open>fix-templates.py\<close> pass, the file is
  written, whatever the count of the block.
\<close>

theorem C3_file_untouched_when_a_guard_fails:
  "(\<not> (truthy (find_line ''  templates: {'' lines)
        \<and> truthy (find_line ''export default nubiCharacter;'' lines)
        \<and> the (find_line ''  templates: {'' lines)
            > the (find_line ''export default nubiCharacter;'' lines))
     \<longrightarrow> (\<exists>oc. fix_templates lines = Inr oc \<and> written oc = None)
         \<and> file_after lines (fix_templates lines) = lines)
   \<and> (truthy (find_line ''  templates: {'' lines)
        \<and> truthy (find_line ''export default nubiCharacter;'' lines)
        \<and> the (find_line ''  templates: {'' lines)
            > the (find_line ''export default nubiCharacter;'' lines)
     \<longrightarrow> (\<exists>out. fix_templates lines
                 = Inr \<lparr>written = Some out, printed = [''Fixed templates structure'']\<rparr>))
   \<and> (\<not> truthy (find_line ''export default nubiCharacter;'' lines)
     \<longrightarrow> written (fix_nubi_final lines) = None
         \<and> file_after lines (Inr (fix_nubi_final lines)) = lines)"
proof (intro conjI impI)
  assume g: "\<not> (truthy (find_line ''  templates: {'' lines)
        \<and> truthy (find_line ''export default nubiCharacter;'' lines)
        \<and> the (find_line ''  templates: {'' lines)
            > the (find_line ''export default nubiCharacter;'' lines))"
  have r: "fix_templates lines = Inr \<lparr>written = None, printed = [''Could not find templates definition'']\<rparr>
      \<or> fix_templates lines = Inr \<lparr>written = None, printed = [''Export/templates order seems OK'']\<rparr>"
  proof (cases "truthy (find_line ''  templates: {'' lines)")
    case True
    with g fix_templates_order_ok [of lines] show ?thesis by blast
  next
    case False
    then show ?thesis by (simp add: fix_templates_not_found)
  qed
  from r show "\<exists>oc. fix_templates lines = Inr oc \<and> written oc = None" by auto
  from r show "file_after lines (fix_templates lines) = lines"
    by (auto simp: file_after_def)
next
  assume g: "truthy (find_line ''  templates: {'' lines)
        \<and> truthy (find_line ''export default nubiCharacter;'' lines)
        \<and> the (find_line ''  templates: {'' lines)
            > the (find_line ''export default nubiCharacter;'' lines)"
  then obtain ts where ts: "find_line ''  templates: {'' lines = Some ts"
    by (cases "find_line ''  templates: {'' lines") auto
  from g obtain e where e: "find_line ''export default nubiCharacter;'' lines = Some e"
    by (cases "find_line ''export default nubiCharacter;'' lines") auto
  from g ts e have "0 < e" and "e < ts" by auto
  from fix_templates_written [OF ts e this]
  show "\<exists>out. fix_templates lines
                 = Inr \<lparr>written = Some out, printed = [''Fixed templates structure'']\<rparr>"
    by blast
next
  assume "\<not> truthy (find_line ''export default nubiCharacter;'' lines)"
  then show "written (fix_nubi_final lines) = None" by (simp add: fix_nubi_final_def)
next
  assume "\<not> truthy (find_line ''export default nubiCharacter;'' lines)"
  then show "file_after lines (Inr (fix_nubi_final lines)) = lines"
    by (simp add: fix_nubi_final_def file_after_def)
qed

theorem C3_file_untouched_when_a_guard_fails_witness:
  "file_after [''const a = 1;\<newline>'', ''export default nubiCharacter;\<newline>'']
      (fix_templates [''const a = 1;\<newline>'', ''export default nubiCharacter;\<newline>''])
     = [''const a = 1;\<newline>'', ''export default nubiCharacter;\<newline>'']
   \<and> written (fix_nubi_final [''const a = 1;\<newline>'', ''  templates: {\<newline>'', ''}\<newline>'']) = None
   \<and> (\<exists>out. fix_templates [''import x\<newline>'', ''export default nubiCharacter;\<newline>'',
                             ''  templates: {\<newline>'', ''  greeting: {\<newline>'']
              = Inr \<lparr>written = Some out, printed = [''Fixed templates structure'']\<rparr>)"
proof -
  have a: "\<not> truthy (find_line ''  templates: {''
              [''const a = 1;\<newline>'', ''export default nubiCharacter;\<newline>''])"
    by simp
  have b: "\<not> truthy (find_line ''export default nubiCharacter;''
              [''const a = 1;\<newline>'', ''  templates: {\<newline>'', ''}\<newline>''])"
    by simp
  have c: "truthy (find_line ''  templates: {''
              [''import x\<newline>'', ''export default nubiCharacter;\<newline>'',
               ''  templates: {\<newline>'', ''  greeting: {\<newline>''])
        \<and> truthy (find_line ''export default nubiCharacter;''
              [''import x\<newline>'', ''export default nubiCharacter;\<newline>'',
               ''  templates: {\<newline>'', ''  greeting: {\<newline>''])
        \<and> the (find_line ''  templates: {''
              [''import x\<newline>'', ''export default nubiCharacter;\<newline>'',
               ''  templates: {\<newline>'', ''  greeting: {\<newline>''])
            > the (find_line ''export default nubiCharacter;''
              [''import x\<newline>'', ''export default nubiCharacter;\<newline>'',
               ''  templates: {\<newline>'', ''  greeting: {\<newline>''])"
    by simp
  from a b c
    C3_file_untouched_when_a_guard_fails
      [of "[''const a = 1;\<newline>'', ''export default nubiCharacter;\<newline>'']"]
    C3_file_untouched_when_a_guard_fails
      [of "[''const a = 1;\<newline>'', ''  templates: {\<newline>'', ''}\<newline>'']"]
    C3_file_untouched_when_a_guard_fails
      [of "[''import x\<newline>'', ''export default nubiCharacter;\<newline>'',
            ''  templates: {\<newline>'', ''  greeting: {\<newline>'']"]
  show ?thesis by blast
qed

section \<open>C4: how the depth is counted\<close>

text \<open>
  C4 as stated: delimiters are processed left to right within a line and the block ends
  exactly at the close delimiter that brings the depth to 0. Counted so, the block below
  ends before the first \<open>}\<close>. The script counts per line: after \<open>  }, other: {\<close> its count
  is still 1, and it keeps two more lines.
\<close>

theorem C4_line_granular_counterexample:
  "spec_char_scan 1 (concat [''  }, other: {\<newline>'', ''  x\<newline>'', ''}\<newline>'', ''y\<newline>''])
     = Some ''  ''
   \<and> extracted [''  templates: {\<newline>'', ''  }, other: {\<newline>'', ''  x\<newline>'',
                 ''}\<newline>'', ''y\<newline>'']
     = [''  }, other: {\<newline>'', ''  x\<newline>'', ''}\<newline>'']"
  by (simp add: extracted_def scan_step_def str_count_def Let_def)

text \<open>
  C4, amended: after the anchor line the count starts at 1 and is updated once per line:
  a line that contains \<open>templates: {\<close> again sets it back to 1 and is not kept, every other
  line is kept and adds its number of \<open>{\<close> minus its number of \<open>}\<close> as a whole. The block
  ends with the first line after which the count is 0, that line kept whole; what follows
  it is not looked at.
\<close>

theorem C4_block_ends_at_first_line_closing_count:
  assumes "str_in ''templates: {'' a"
    and "\<forall>j<length pre. run_count 1 (take (Suc j) pre) \<noteq> 0"
    and "run_count 1 (pre @ [l0]) = 0"
  shows "extracted (a # pre @ l0 # post)
           = filter (\<lambda>l. \<not> str_in ''templates: {'' l) pre @ [l0]"
proof -
  have "scan_loop (a # pre @ l0 # post)
          \<lparr>in_templates = False, brace_count = 0, lines_to_keep = []\<rparr>
        = scan_loop (pre @ l0 # post)
          \<lparr>in_templates = True, brace_count = 1, lines_to_keep = []\<rparr>"
    using assms(1) by (simp add: scan_step_anchor)
  also have "\<dots> = \<lparr>in_templates = True, brace_count = 0,
       lines_to_keep = [] @ filter (\<lambda>l. \<not> str_in ''templates: {'' l) pre @ [l0]\<rparr>"
    by (rule scan_loop_closed [OF assms(2,3)])
  finally show ?thesis by (simp add: extracted_def)
qed

theorem C4_block_ends_at_first_line_closing_count_witness:
  "extracted [''  templates: {\<newline>'', ''  a: { b: 1 },\<newline>'', ''  c: {\<newline>'',
              ''    x.templates: {\<newline>'', ''  d\<newline>'', ''  }\<newline>'', ''after\<newline>'']
     = [''  a: { b: 1 },\<newline>'', ''  c: {\<newline>'', ''  d\<newline>'', ''  }\<newline>'']"
  using C4_block_ends_at_first_line_closing_count
    [of "''  templates: {\<newline>''"
        "[''  a: { b: 1 },\<newline>'', ''  c: {\<newline>'', ''    x.templates: {\<newline>'', ''  d\<newline>'']"
        "''  }\<newline>''" "[''after\<newline>'']"]
  by (simp add: line_delta_def str_count_def less_Suc_eq)

section \<open>C5: closing the last kept line\<close>

lemma str_rstrip_split:
  "\<exists>ws. l = str_rstrip l @ ws \<and> (\<forall>c\<in>set ws. isspace c)"
proof -
  have "rev (takeWhile isspace (rev l) @ dropWhile isspace (rev l)) = l"
    by (simp only: takeWhile_dropWhile_id rev_rev_ident)
  then have "rev (dropWhile isspace (rev l)) @ rev (takeWhile isspace (rev l)) = l"
    by (simp only: rev_append)
  then have "l = str_rstrip l @ rev (takeWhile isspace (rev l))"
    by (simp add: str_rstrip_def)
  moreover have "\<forall>c\<in>set (rev (takeWhile isspace (rev l))). isspace c"
    by (auto dest: set_takeWhileD)
  ultimately show ?thesis by blast
qed

lemma str_rstrip_last: "str_rstrip l \<noteq> [] \<Longrightarrow> \<not> isspace (last (str_rstrip l))"
proof -
  assume ne: "str_rstrip l \<noteq> []"
  then have d: "dropWhile isspace (rev l) \<noteq> []" by (simp add: str_rstrip_def)
  then have "\<not> isspace (hd (dropWhile isspace (rev l)))" by (rule hd_dropWhile)
  with d show ?thesis by (simp add: str_rstrip_def last_rev)
qed

lemma str_endswith_append: "str_endswith (s @ suf) suf"
  by (simp add: str_endswith_def str_startswith_iff)

text \<open>
  C5 as stated: a block whose last non-whitespace character is a list separator has that
  separator replaced by a statement terminator, and no other punctuation is rewritten.
  Lines 56 and 57 replace nothing: the comma of \<open>  },\<close> stays and \<open>;\<close> is put after it,
  and a line with no separator at its end, \<open>}\<close>, gets a \<open>;\<close> as well.
\<close>

theorem C5_separator_kept_counterexample:
  "close_line ''  },\<newline>'' = ''  },;\<newline>'' \<and> close_line ''}\<newline>'' = ''};\<newline>''"
  by (simp add: close_line_def str_endswith_def str_rstrip_def isspace_def)

text \<open>
  C5, amended: a last kept line that ends with \<open>;\<close> and a line feed is left as it is. Any
  other last line loses its trailing whitespace and nothing else, and \<open>;\<close> and a line feed
  are put after what remains, a trailing separator included. Either way the result ends
  with \<open>;\<close> and a line feed.
\<close>

theorem C5_close_line_appends_terminator:
  "(str_endswith l '';\<newline>'' \<longrightarrow> close_line l = l)
   \<and> (\<not> str_endswith l '';\<newline>'' \<longrightarrow>
        (\<exists>body ws. l = body @ ws \<and> (\<forall>c\<in>set ws. isspace c)
            \<and> (body = [] \<or> \<not> isspace (last body))
            \<and> close_line l = body @ '';\<newline>''))
   \<and> str_endswith (close_line l) '';\<newline>''"
proof (intro conjI impI)
  assume "str_endswith l '';\<newline>''"
  then show "close_line l = l" by (simp add: close_line_def)
next
  assume n: "\<not> str_endswith l '';\<newline>''"
  from str_rstrip_split [of l] obtain ws where
    ws: "l = str_rstrip l @ ws" "\<forall>c\<in>set ws. isspace c" by blast
  have "str_rstrip l = [] \<or> \<not> isspace (last (str_rstrip l))"
    using str_rstrip_last [of l] by blast
  moreover have "close_line l = str_rstrip l @ '';\<newline>''" using n by (simp add: close_line_def)
  ultimately show "\<exists>body ws. l = body @ ws \<and> (\<forall>c\<in>set ws. isspace c)
            \<and> (body = [] \<or> \<not> isspace (last body))
            \<and> close_line l = body @ '';\<newline>''"
    using ws by blast
next
  show "str_endswith (close_line l) '';\<newline>''"
    by (cases "str_endswith l '';\<newline>''") (simp_all add: close_line_def str_endswith_append)
qed

theorem C5_close_line_appends_terminator_witness:
  "\<not> str_endswith ''x: 1, y: 2  '' '';\<newline>''
   \<and> str_endswith ''done;\<newline>'' '';\<newline>''
   \<and> close_line ''done;\<newline>'' = ''done;\<newline>''
   \<and> str_endswith (close_line ''x: 1, y: 2  '') '';\<newline>''"
  using C5_close_line_appends_terminator [of "''x: 1, y: 2  ''"]
        C5_close_line_appends_terminator [of "''done;\<newline>''"]
  by (simp add: str_endswith_def)

section \<open>C6: replacing a line by its index\<close>

lemma replace_line_guarded_script:
  "fix_error_handler lines =
     \<lparr>written = Some (replace_line_guarded 107 error_json_line
                       (replace_line_guarded 37 debug_completed_line
                         (replace_line_guarded 34 debug_executing_line lines))),
      printed = [''Fixing error-handler.ts...'', ''All fixes applied!'']\<rparr>"
  by (simp add: fix_error_handler_def replace_line_guarded_def Let_def)

text \<open>
  C6 as stated: on a buffer with fewer lines than the index, ReplaceLine fails with
  IndexOutOfRange. On a file of three lines the script skips its three assignments, raises
  nothing and writes the three lines back, where the ReplaceLine of the specification
  fails.
\<close>

theorem C6_short_buffer_counterexample:
  "fix_error_handler [''a\<newline>'', ''b\<newline>'', ''c\<newline>'']
     = \<lparr>written = Some [''a\<newline>'', ''b\<newline>'', ''c\<newline>''],
        printed = [''Fixing error-handler.ts...'', ''All fixes applied!'']\<rparr>
   \<and> spec_ReplaceLine 34 debug_executing_line [''a\<newline>'', ''b\<newline>'', ''c\<newline>'']
     = Inl IndexOutOfRange
   \<and> replace_line_guarded 5 ''x'' [''a\<newline>'', ''b\<newline>'', ''c\<newline>'']
     = [''a\<newline>'', ''b\<newline>'', ''c\<newline>'']
   \<and> spec_ReplaceLine 5 ''x'' [''a\<newline>'', ''b\<newline>'', ''c\<newline>''] = Inl IndexOutOfRange"
  by (simp add: fix_error_handler_def spec_ReplaceLine_def replace_line_guarded_def)

text \<open>
  C6, amended: on a buffer with fewer lines than the 1-based index \<open>n\<close> the assignment is
  skipped and the buffer is unchanged, with no error; on a buffer with more than \<open>n\<close> lines
  the line \<open>n\<close> is replaced by the new text and every other line stays. The script is three
  such assignments, for the lines 34, 37 and 107, and always writes the result.
\<close>

theorem C6_guarded_line_replacement:
  "(length lines < n \<longrightarrow> replace_line_guarded n txt lines = lines)
   \<and> (0 < n \<and> n < length lines \<longrightarrow>
        replace_line_guarded n txt lines = take (n - 1) lines @ [txt] @ drop n lines)
   \<and> written (fix_error_handler lines) =
       Some (replace_line_guarded 107 error_json_line
              (replace_line_guarded 37 debug_completed_line
                (replace_line_guarded 34 debug_executing_line lines)))"
proof (intro conjI impI)
  assume "length lines < n"
  then show "replace_line_guarded n txt lines = lines" by (simp add: replace_line_guarded_def)
next
  assume a: "0 < n \<and> n < length lines"
  then have "n - 1 < length lines" by arith
  then have "lines[n - 1 := txt] = take (n - 1) lines @ txt # drop (Suc (n - 1)) lines"
    by (rule upd_conv_take_nth_drop)
  with a show "replace_line_guarded n txt lines = take (n - 1) lines @ [txt] @ drop n lines"
    by (simp add: replace_line_guarded_def)
next
  show "written (fix_error_handler lines) =
       Some (replace_line_guarded 107 error_json_line
              (replace_line_guarded 37 debug_completed_line
                (replace_line_guarded 34 debug_executing_line lines)))"
    by (simp add: replace_line_guarded_script)
qed

theorem C6_guarded_line_replacement_witness:
  "replace_line_guarded 5 ''x'' [''a\<newline>'', ''b\<newline>'', ''c\<newline>''] = [''a\<newline>'', ''b\<newline>'', ''c\<newline>'']
   \<and> replace_line_guarded 2 ''x'' [''a\<newline>'', ''b\<newline>'', ''c\<newline>''] = [''a\<newline>'', ''x'', ''c\<newline>'']"
  using C6_guarded_line_replacement [of "[''a\<newline>'', ''b\<newline>'', ''c\<newline>'']" 5 "''x''"]
        C6_guarded_line_replacement [of "[''a\<newline>'', ''b\<newline>'', ''c\<newline>'']" 2 "''x''"]
  by simp

section \<open>C7, C9 and C10: what the relocation writes and drops\<close>











text \<open>
  C9: for every remainder \<open>rest\<close> and predicate \<open>pred\<close> the tail loop returns what was kept
  before, the relocated declaration, followed by the lines of \<open>rest\<close> at the indices where
  \<open>pred\<close> holds: each index once, in increasing order, the lines verbatim.
\<close>

theorem C9_tail_in_order_each_once:
  "tail_loop pred rest keep = keep @ nths rest {i. i < length rest \<and> pred (rest ! i)}"
  by (simp add: tail_loop_filter filter_eq_nths)

theorem C9_tail_in_order_each_once_witness:
  "tail_loop templates_tail_pred
      [''  a: 1,\<newline>'', ''// delete the copy\<newline>'', ''delete x.y;\<newline>'', ''run();\<newline>'']
      [''};\<newline>'']
     = [''};\<newline>'']
       @ nths [''  a: 1,\<newline>'', ''// delete the copy\<newline>'', ''delete x.y;\<newline>'', ''run();\<newline>'']
           {i. i < length [''  a: 1,\<newline>'', ''// delete the copy\<newline>'', ''delete x.y;\<newline>'',
                           ''run();\<newline>'']
               \<and> templates_tail_pred
                    ([''  a: 1,\<newline>'', ''// delete the copy\<newline>'', ''delete x.y;\<newline>'',
                      ''run();\<newline>''] ! i)}
   \<and> tail_loop templates_tail_pred
      [''  a: 1,\<newline>'', ''// delete the copy\<newline>'', ''delete x.y;\<newline>'', ''run();\<newline>'']
      [''};\<newline>'']
     = [''};\<newline>'', ''// delete the copy\<newline>'', ''delete x.y;\<newline>'']"
proof
  show "tail_loop templates_tail_pred
      [''  a: 1,\<newline>'', ''// delete the copy\<newline>'', ''delete x.y;\<newline>'', ''run();\<newline>'']
      [''};\<newline>'']
     = [''};\<newline>'']
       @ nths [''  a: 1,\<newline>'', ''// delete the copy\<newline>'', ''delete x.y;\<newline>'', ''run();\<newline>'']
           {i. i < length [''  a: 1,\<newline>'', ''// delete the copy\<newline>'', ''delete x.y;\<newline>'',
                           ''run();\<newline>'']
               \<and> templates_tail_pred
                    ([''  a: 1,\<newline>'', ''// delete the copy\<newline>'', ''delete x.y;\<newline>'',
                      ''run();\<newline>''] ! i)}"
    by (rule C9_tail_in_order_each_once)
  show "tail_loop templates_tail_pred
      [''  a: 1,\<newline>'', ''// delete the copy\<newline>'', ''delete x.y;\<newline>'', ''run();\<newline>'']
      [''};\<newline>'']
     = [''};\<newline>'', ''// delete the copy\<newline>'', ''delete x.y;\<newline>'']"
    by (simp add: templates_tail_pred_def)
qed

text \<open>
  C10: on every buffer in which the anchor line and the export line are found, with the
  anchor after the export, the relocation drops every line after the export line that is
  neither in the extracted block nor a tail line. On the buffer below the export line is
  the first line of the file and the anchor is the third. The script tests the index of
  the export line for truth, takes the index 0 for no match, prints that the order seems
  OK and writes nothing: the line \<open>const a = 1;\<close> stays in the file.
\<close>

theorem C10_export_on_first_line_not_relocated:
  "find_line ''export default nubiCharacter;''
      [''export default nubiCharacter;\<newline>'', ''const a = 1;\<newline>'', ''  templates: {\<newline>'',
       ''  t: 1,\<newline>'', ''}\<newline>''] = Some 0
   \<and> find_line ''  templates: {''
      [''export default nubiCharacter;\<newline>'', ''const a = 1;\<newline>'', ''  templates: {\<newline>'',
       ''  t: 1,\<newline>'', ''}\<newline>''] = Some 2
   \<and> fix_templates
      [''export default nubiCharacter;\<newline>'', ''const a = 1;\<newline>'', ''  templates: {\<newline>'',
       ''  t: 1,\<newline>'', ''}\<newline>'']
     = Inr \<lparr>written = None, printed = [''Export/templates order seems OK'']\<rparr>
   \<and> file_after
        [''export default nubiCharacter;\<newline>'', ''const a = 1;\<newline>'', ''  templates: {\<newline>'',
         ''  t: 1,\<newline>'', ''}\<newline>'']
        (fix_templates
          [''export default nubiCharacter;\<newline>'', ''const a = 1;\<newline>'', ''  templates: {\<newline>'',
           ''  t: 1,\<newline>'', ''}\<newline>''])
     = [''export default nubiCharacter;\<newline>'', ''const a = 1;\<newline>'', ''  templates: {\<newline>'',
        ''  t: 1,\<newline>'', ''}\<newline>'']"
  by (simp add: fix_templates_def file_after_def)

section \<open>C2 and C8: running the substitutions again, and what a run reports\<close>

lemma replace_from_no_match: "\<not> str_in old s \<Longrightarrow> replace_from old new s = s"
  by (induction s) auto

lemma str_in_empty: "str_in [] s"
  by (cases s) auto

lemma str_replace_no_match: "\<not> str_in old s \<Longrightarrow> str_replace s old new = s"
  using str_in_empty [of s] by (auto simp: str_replace_def replace_from_no_match)

lemma replace_all_no_match:
  "\<forall>(old, new)\<in>set ops. \<not> str_in old content \<Longrightarrow> replace_all ops content = content"
  by (induction ops) (auto simp: str_replace_no_match)

lemma fix_raid_system_views_ops: "fix_raid_system_views content = replace_all raid_view_ops content"
  by (simp add: fix_raid_system_views_def raid_view_ops_def)

lemma str_startswith_length: "str_startswith s p \<Longrightarrow> length p \<le> length s"
  by (auto simp: str_startswith_iff)

lemma str_startswith_split:
  "old \<noteq> [] \<Longrightarrow> str_startswith (c # cs) old \<Longrightarrow> c # cs = old @ drop (length old - 1) cs"
proof -
  assume ne: "old \<noteq> []" and st: "str_startswith (c # cs) old"
  then obtain post where p: "c # cs = old @ post" by (auto simp: str_startswith_iff)
  from ne obtain h t where o: "old = h # t" by (cases old) auto
  with p have "cs = t @ post" by simp
  then have "drop (length old - 1) cs = post" using o by simp
  with p show ?thesis by simp
qed

lemma replace_from_hit:
  "old \<noteq> [] \<Longrightarrow> str_startswith (c # cs) old \<Longrightarrow>
   replace_from old new (c # cs) = new @ replace_from old new (drop (length old - 1) cs)"
  by simp

lemma replace_from_miss:
  "\<not> (old \<noteq> [] \<and> str_startswith (c # cs) old) \<Longrightarrow>
   replace_from old new (c # cs) = c # replace_from old new cs"
  by auto

lemma replace_from_length_ge:
  "length old \<le> length new \<Longrightarrow> length s \<le> length (replace_from old new s)"
proof (induction old new s rule: replace_from.induct)
  case (1 old new)
  show ?case by simp
next
  case (2 old new c cs)
  let ?rest = "drop (length old - 1) cs"
  show ?case
  proof (cases "old \<noteq> [] \<and> str_startswith (c # cs) old")
    case True
    then have ne: "old \<noteq> []" and st: "str_startswith (c # cs) old" by blast+
    have sp: "c # cs = old @ ?rest" using ne st by (rule str_startswith_split)
    have "length (c # cs) = length (old @ ?rest)" using sp by (rule arg_cong)
    then have l1: "length (c # cs) = length old + length ?rest" by (simp only: length_append)
    have l2: "length ?rest \<le> length (replace_from old new ?rest)"
      using True "2.prems" by (rule "2.IH"(1))
    have "length (replace_from old new (c # cs))
            = length (new @ replace_from old new ?rest)"
      using replace_from_hit [OF ne st] by (rule arg_cong)
    then have l3: "length (replace_from old new (c # cs))
            = length new + length (replace_from old new ?rest)" by (simp only: length_append)
    from l1 l2 l3 "2.prems" show ?thesis by linarith
  next
    case False
    have l2: "length cs \<le> length (replace_from old new cs)"
      using False "2.prems" by (rule "2.IH"(2))
    have "length (replace_from old new (c # cs)) = length (c # replace_from old new cs)"
      using replace_from_miss [OF False] by (rule arg_cong)
    then have "length (replace_from old new (c # cs)) = Suc (length (replace_from old new cs))"
      by (simp only: list.size(4) length_Cons)
    with l2 show ?thesis by (simp only: length_Cons)
  qed
qed

lemma replace_from_length_le:
  "length new \<le> length old \<Longrightarrow> length (replace_from old new s) \<le> length s"
proof (induction old new s rule: replace_from.induct)
  case (1 old new)
  show ?case by simp
next
  case (2 old new c cs)
  let ?rest = "drop (length old - 1) cs"
  show ?case
  proof (cases "old \<noteq> [] \<and> str_startswith (c # cs) old")
    case True
    then have ne: "old \<noteq> []" and st: "str_startswith (c # cs) old" by blast+
    have sp: "c # cs = old @ ?rest" using ne st by (rule str_startswith_split)
    have "length (c # cs) = length (old @ ?rest)" using sp by (rule arg_cong)
    then have l1: "length (c # cs) = length old + length ?rest" by (simp only: length_append)
    have l2: "length (replace_from old new ?rest) \<le> length ?rest"
      using True "2.prems" by (rule "2.IH"(1))
    have "length (replace_from old new (c # cs))
            = length (new @ replace_from old new ?rest)"
      using replace_from_hit [OF ne st] by (rule arg_cong)
    then have l3: "length (replace_from old new (c # cs))
            = length new + length (replace_from old new ?rest)" by (simp only: length_append)
    from l1 l2 l3 "2.prems" show ?thesis by linarith
  next
    case False
    have l2: "length (replace_from old new cs) \<le> length cs"
      using False "2.prems" by (rule "2.IH"(2))
    have "length (replace_from old new (c # cs)) = length (c # replace_from old new cs)"
      using replace_from_miss [OF False] by (rule arg_cong)
    then have "length (replace_from old new (c # cs)) = Suc (length (replace_from old new cs))"
      by (simp only: length_Cons)
    with l2 show ?thesis by (simp only: length_Cons)
  qed
qed

lemma replace_from_changes:
  "old \<noteq> [] \<Longrightarrow> new \<noteq> old \<Longrightarrow> str_in old s \<Longrightarrow> replace_from old new s \<noteq> s"
proof (induction old new s rule: replace_from.induct)
  case (1 old new)
  then show ?case by simp
next
  case (2 old new c cs)
  show ?case
  proof (cases "str_startswith (c # cs) old")
    case True
    let ?rest = "drop (length old - 1) cs"
    from "2.prems"(1) True have sp: "c # cs = old @ ?rest" by (rule str_startswith_split)
    have r: "replace_from old new (c # cs) = new @ replace_from old new ?rest"
      using "2.prems"(1) True by (rule replace_from_hit)
    show ?thesis
    proof
      assume "replace_from old new (c # cs) = c # cs"
      with r sp have eq: "new @ replace_from old new ?rest = old @ ?rest" by (simp only:)
      then have "length (new @ replace_from old new ?rest) = length (old @ ?rest)"
        by (rule arg_cong)
      then have len: "length new + length (replace_from old new ?rest)
                      = length old + length ?rest"
        by (simp only: length_append)
      have "length new = length old"
      proof (rule ccontr)
        assume "length new \<noteq> length old"
        then consider "length new < length old" | "length old < length new" by linarith
        then show False
        proof cases
          case 1
          then have "length new \<le> length old" by simp
          then have "length (replace_from old new ?rest) \<le> length ?rest"
            by (rule replace_from_length_le)
          with len 1 show False by linarith
        next
          case 2
          then have "length old \<le> length new" by simp
          then have "length ?rest \<le> length (replace_from old new ?rest)"
            by (rule replace_from_length_ge)
          with len 2 show False by linarith
        qed
      qed
      with eq have "new = old" by (metis append_eq_append_conv)
      with "2.prems"(2) show False by blast
    qed
  next
    case False
    with "2.prems"(3) have in_cs: "str_in old cs" by simp
    from False have nh: "\<not> (old \<noteq> [] \<and> str_startswith (c # cs) old)" by blast
    have "replace_from old new cs \<noteq> cs"
      using nh "2.prems"(1,2) in_cs by (rule "2.IH"(2))
    with replace_from_miss [OF nh, of new] show ?thesis by (simp only: list.inject) blast
  qed
qed

lemma interleave_length: "length s \<le> length (concat (map (\<lambda>c. c # new) s))"
  by (induction s) auto

lemma str_replace_changes:
  "new \<noteq> old \<Longrightarrow> str_in old s \<Longrightarrow> str_replace s old new \<noteq> s"
proof (cases "old = []")
  case True
  assume "new \<noteq> old"
  with True have pos: "0 < length new" by simp
  have "length (new @ concat (map (\<lambda>c. c # new) s))
          = length new + length (concat (map (\<lambda>c. c # new) s))" by (rule length_append)
  with pos interleave_length [of s new]
  have lt: "length s < length (new @ concat (map (\<lambda>c. c # new) s))" by linarith
  have "new @ concat (map (\<lambda>c. c # new) s) \<noteq> s"
  proof
    assume "new @ concat (map (\<lambda>c. c # new) s) = s"
    then have "length (new @ concat (map (\<lambda>c. c # new) s)) = length s" by (rule arg_cong)
    with lt show False by linarith
  qed
  with True show ?thesis by (simp add: str_replace_def)
next
  case False
  assume "new \<noteq> old" "str_in old s"
  with False show ?thesis by (simp add: str_replace_def replace_from_changes)
qed

text \<open>
  C2 as stated: applying the same operations to an already patched buffer leaves it
  unchanged. The first replacement of \<open>fix-raid-system.py\<close> puts its own pattern back, so a
  second run adds a second \<open>view: number;\<close>; a second run of \<open>fix-nubi-final.py\<close> inserts
  the import line a second time.
\<close>

theorem C2_rerun_counterexample:
  \<open>fix_raid_system_views ''quote: number;'' = ''quote: number;\<newline>        view: number;''
   \<and> fix_raid_system_views ''quote: number;\<newline>        view: number;''
     = ''quote: number;\<newline>        view: number;\<newline>        view: number;''
   \<and> written (fix_nubi_final [''import a\<newline>'', ''export default nubiCharacter;\<newline>''])
     = Some [''import a\<newline>'', ''import { nubiTemplates } from "./nubi-templates";\<newline>'',
             ''export default nubiCharacter;\<newline>'', ''\<newline>'',
             ''// Export templates for use in other modules\<newline>'',
             ''export { nubiTemplates } from "./nubi-templates";\<newline>'', ''\<newline>'']
   \<and> written (fix_nubi_final
        [''import a\<newline>'', ''import { nubiTemplates } from "./nubi-templates";\<newline>'',
         ''export default nubiCharacter;\<newline>'', ''\<newline>'',
         ''// Export templates for use in other modules\<newline>'',
         ''export { nubiTemplates } from "./nubi-templates";\<newline>'', ''\<newline>''])
     = Some [''import a\<newline>'', ''import { nubiTemplates } from "./nubi-templates";\<newline>'',
             ''import { nubiTemplates } from "./nubi-templates";\<newline>'',
             ''export default nubiCharacter;\<newline>'', ''\<newline>'',
             ''// Export templates for use in other modules\<newline>'',
             ''export { nubiTemplates } from "./nubi-templates";\<newline>'', ''\<newline>'']\<close>
  by (simp add: fix_raid_system_views_def str_replace_def fix_nubi_final_def list_insert_def
      import_line_def final_tail_pred_def Let_def)

text \<open>
  C2, amended: on every buffer, the output of an earlier run included, an operation that
  is applied again is a no-op when it is a substitution whose pattern does not occur in
  the buffer, or the relocation of \<open>fix-templates.py\<close> or of \<open>fix-nubi-final.py\<close> whose
  anchor is not found; a run of substitutions none of whose patterns occurs is a no-op as
  a whole. A substitution whose pattern occurs in the buffer, and whose replacement is not
  the pattern itself, changes the buffer again.
\<close>

theorem C2_rerun_noop_exactly_when_nothing_matches:
  "(\<not> str_in old buf \<longrightarrow> str_replace buf old new = buf)
   \<and> (str_in old buf \<and> new \<noteq> old \<longrightarrow> str_replace buf old new \<noteq> buf)
   \<and> ((\<forall>(old, new)\<in>set ops. \<not> str_in old buf) \<longrightarrow> replace_all ops buf = buf)
   \<and> (\<not> truthy (find_line ''  templates: {'' lines)
        \<longrightarrow> file_after lines (fix_templates lines) = lines)
   \<and> (\<not> truthy (find_line ''export default nubiCharacter;'' lines)
        \<longrightarrow> file_after lines (Inr (fix_nubi_final lines)) = lines)"
proof (intro conjI impI)
  assume "\<not> str_in old buf"
  then show "str_replace buf old new = buf" by (rule str_replace_no_match)
next
  assume "str_in old buf \<and> new \<noteq> old"
  then show "str_replace buf old new \<noteq> buf" using str_replace_changes [of new old buf] by blast
next
  assume "\<forall>(old, new)\<in>set ops. \<not> str_in old buf"
  then show "replace_all ops buf = buf" by (rule replace_all_no_match)
next
  assume "\<not> truthy (find_line ''  templates: {'' lines)"
  then show "file_after lines (fix_templates lines) = lines"
    by (simp add: fix_templates_not_found file_after_def)
next
  assume "\<not> truthy (find_line ''export default nubiCharacter;'' lines)"
  then show "file_after lines (Inr (fix_nubi_final lines)) = lines"
    by (simp add: fix_nubi_final_def file_after_def)
qed

theorem C2_rerun_noop_exactly_when_nothing_matches_witness:
  "str_replace ''            quote: 3,\<newline>            view: 1,\<newline>        },''
      ''            quote: 3,\<newline>        },''
      ''            quote: 3,\<newline>            view: 1,\<newline>        },''
     = ''            quote: 3,\<newline>            view: 1,\<newline>        },''
   \<and> str_replace ''quote: number;\<newline>        view: number;'' ''quote: number;''
        ''quote: number;\<newline>        view: number;''
     \<noteq> ''quote: number;\<newline>        view: number;''
   \<and> replace_all raid_view_ops ''const x = 1;\<newline>'' = ''const x = 1;\<newline>''
   \<and> file_after [''import x\<newline>'', ''export default nubiCharacter;\<newline>'', ''\<newline>'']
        (fix_templates [''import x\<newline>'', ''export default nubiCharacter;\<newline>'', ''\<newline>''])
     = [''import x\<newline>'', ''export default nubiCharacter;\<newline>'', ''\<newline>'']
   \<and> file_after [''import x\<newline>'', ''const a = 1;\<newline>'']
        (Inr (fix_nubi_final [''import x\<newline>'', ''const a = 1;\<newline>'']))
     = [''import x\<newline>'', ''const a = 1;\<newline>'']"
proof -
  have a: "\<not> str_in ''            quote: 3,\<newline>        },''
               ''            quote: 3,\<newline>            view: 1,\<newline>        },''"
    by simp
  have b: "str_in ''quote: number;'' ''quote: number;\<newline>        view: number;''
           \<and> ''quote: number;\<newline>        view: number;'' \<noteq> ''quote: number;''"
    by simp
  have c: "\<forall>(old, new)\<in>set raid_view_ops. \<not> str_in old ''const x = 1;\<newline>''"
    by (simp add: raid_view_ops_def)
  have d: "\<not> truthy (find_line ''  templates: {''
               [''import x\<newline>'', ''export default nubiCharacter;\<newline>'', ''\<newline>''])"
    by simp
  have e: "\<not> truthy (find_line ''export default nubiCharacter;''
               [''import x\<newline>'', ''const a = 1;\<newline>''])"
    by simp
  from a
    C2_rerun_noop_exactly_when_nothing_matches
      [of "''            quote: 3,\<newline>        },''"
          "''            quote: 3,\<newline>            view: 1,\<newline>        },''"
          "''            quote: 3,\<newline>            view: 1,\<newline>        },''"]
  have 1: "str_replace ''            quote: 3,\<newline>            view: 1,\<newline>        },''
      ''            quote: 3,\<newline>        },''
      ''            quote: 3,\<newline>            view: 1,\<newline>        },''
     = ''            quote: 3,\<newline>            view: 1,\<newline>        },''"
    by blast
  from b
    C2_rerun_noop_exactly_when_nothing_matches
      [of "''quote: number;''" "''quote: number;\<newline>        view: number;''"
          "''quote: number;\<newline>        view: number;''"]
  have 2: "str_replace ''quote: number;\<newline>        view: number;'' ''quote: number;''
        ''quote: number;\<newline>        view: number;''
     \<noteq> ''quote: number;\<newline>        view: number;''"
    by blast
  from c
    C2_rerun_noop_exactly_when_nothing_matches
      [of _ "''const x = 1;\<newline>''" _ raid_view_ops]
  have 3: "replace_all raid_view_ops ''const x = 1;\<newline>'' = ''const x = 1;\<newline>''"
    by blast
  from d
    C2_rerun_noop_exactly_when_nothing_matches
      [of _ _ _ _ "[''import x\<newline>'', ''export default nubiCharacter;\<newline>'', ''\<newline>'']"]
  have 4: "file_after [''import x\<newline>'', ''export default nubiCharacter;\<newline>'', ''\<newline>'']
        (fix_templates [''import x\<newline>'', ''export default nubiCharacter;\<newline>'', ''\<newline>''])
     = [''import x\<newline>'', ''export default nubiCharacter;\<newline>'', ''\<newline>'']"
    by blast
  from e
    C2_rerun_noop_exactly_when_nothing_matches
      [of _ _ _ _ "[''import x\<newline>'', ''const a = 1;\<newline>'']"]
  have 5: "file_after [''import x\<newline>'', ''const a = 1;\<newline>'']
        (Inr (fix_nubi_final [''import x\<newline>'', ''const a = 1;\<newline>'']))
     = [''import x\<newline>'', ''const a = 1;\<newline>'']"
    by blast
  from 1 2 3 4 5 show ?thesis by blast
qed

text \<open>
  C8 as stated: a substitution that replaces nothing and a relocation that finds nothing
  are reported to the caller. On a content in which no pattern occurs the run of
  \<open>comprehensive-fix.py\<close> prints its one fixed line and nothing about the count (no
  \<open>.createMemory(\<close> occurs either, so \<open>re.sub\<close> returns its argument); \<open>fix-nubi-final.py\<close>
  prints nothing at all when it finds no export line.
\<close>

theorem C8_silent_substitution_counterexample:
  "comprehensive_fix_raid_system (\<lambda>c. c) ''const x = 1;\<newline>''
     = (''const x = 1;\<newline>'', [''Fixing nubi-raid-system.ts...''])
   \<and> fix_nubi_final [''const a = 1;\<newline>''] = \<lparr>written = None, printed = []\<rparr>"
  by (simp add: comprehensive_fix_raid_system_def str_replace_def fix_nubi_final_def Let_def)

text \<open>
  C8, amended: \<open>fix-templates.py\<close> reports a relocation it does not perform, by one of two
  printed messages. The substitutions of \<open>comprehensive-fix.py\<close> print the same single line
  whatever they replace, and leave a content without their patterns unchanged;
  \<open>fix-nubi-final.py\<close> prints nothing when the export line is not found.
\<close>

theorem C8_what_is_reported:
  \<open>snd (comprehensive_fix_raid_system re_sub content) = [''Fixing nubi-raid-system.ts...'']
   \<and> (\<not> str_in ''            share: 1,\<newline>            quote: 3,\<newline>        },'' content
      \<and> \<not> str_in ''if (text.toLowerCase()'' content
      \<and> \<not> str_in ''.user?.id || ""'' content
      \<and> \<not> str_in ''"userId":'' content
      \<longrightarrow> comprehensive_fix_raid_system re_sub content
          = (re_sub content, [''Fixing nubi-raid-system.ts...'']))
   \<and> (\<not> truthy (find_line ''  templates: {'' lines)
      \<longrightarrow> fix_templates lines
          = Inr \<lparr>written = None, printed = [''Could not find templates definition'']\<rparr>)
   \<and> (truthy (find_line ''  templates: {'' lines)
      \<and> \<not> (truthy (find_line ''export default nubiCharacter;'' lines)
           \<and> the (find_line ''  templates: {'' lines)
               > the (find_line ''export default nubiCharacter;'' lines))
      \<longrightarrow> fix_templates lines
          = Inr \<lparr>written = None, printed = [''Export/templates order seems OK'']\<rparr>)
   \<and> (\<not> truthy (find_line ''export default nubiCharacter;'' lines)
      \<longrightarrow> fix_nubi_final lines = \<lparr>written = None, printed = []\<rparr>)\<close>
proof (intro conjI impI)
  show "snd (comprehensive_fix_raid_system re_sub content) = [''Fixing nubi-raid-system.ts...'']"
    by (simp add: comprehensive_fix_raid_system_def Let_def)
next
  assume \<open>\<not> str_in ''            share: 1,\<newline>            quote: 3,\<newline>        },'' content
      \<and> \<not> str_in ''if (text.toLowerCase()'' content
      \<and> \<not> str_in ''.user?.id || ""'' content
      \<and> \<not> str_in ''"userId":'' content\<close>
  then show "comprehensive_fix_raid_system re_sub content
          = (re_sub content, [''Fixing nubi-raid-system.ts...''])"
    by (simp add: comprehensive_fix_raid_system_def Let_def str_replace_no_match)
next
  assume "\<not> truthy (find_line ''  templates: {'' lines)"
  then show "fix_templates lines
          = Inr \<lparr>written = None, printed = [''Could not find templates definition'']\<rparr>"
    by (rule fix_templates_not_found)
next
  assume "truthy (find_line ''  templates: {'' lines)
      \<and> \<not> (truthy (find_line ''export default nubiCharacter;'' lines)
           \<and> the (find_line ''  templates: {'' lines)
               > the (find_line ''export default nubiCharacter;'' lines))"
  then show "fix_templates lines
          = Inr \<lparr>written = None, printed = [''Export/templates order seems OK'']\<rparr>"
    using fix_templates_order_ok [of lines] by blast
next
  assume "\<not> truthy (find_line ''export default nubiCharacter;'' lines)"
  then show "fix_nubi_final lines = \<lparr>written = None, printed = []\<rparr>"
    by (simp add: fix_nubi_final_def)
qed

theorem C8_what_is_reported_witness:
  "comprehensive_fix_raid_system (\<lambda>c. c) ''const x = 1;\<newline>''
     = (''const x = 1;\<newline>'', [''Fixing nubi-raid-system.ts...''])
   \<and> fix_templates [''const a = 1;\<newline>'', ''export default nubiCharacter;\<newline>'']
     = Inr \<lparr>written = None, printed = [''Could not find templates definition'']\<rparr>
   \<and> fix_templates [''const a = 1;\<newline>'', ''  templates: {\<newline>'', ''}\<newline>'',
                    ''export default nubiCharacter;\<newline>'']
     = Inr \<lparr>written = None, printed = [''Export/templates order seems OK'']\<rparr>
   \<and> fix_nubi_final [''const a = 1;\<newline>''] = \<lparr>written = None, printed = []\<rparr>"
  using C8_what_is_reported [of "\<lambda>c. c" "''const x = 1;\<newline>''"
          "[''const a = 1;\<newline>'', ''export default nubiCharacter;\<newline>'']"]
        C8_what_is_reported [of "\<lambda>c. c" "''const x = 1;\<newline>''"
          "[''const a = 1;\<newline>'', ''  templates: {\<newline>'', ''}\<newline>'',
            ''export default nubiCharacter;\<newline>'']"]
        C8_what_is_reported [of "\<lambda>c. c" "''const x = 1;\<newline>''" "[''const a = 1;\<newline>'']"]
  by simp

end
